theory Spec2Isabelle
  imports Main "HOL-Library.Word" "HOL-Library.AList" "HOL-Library.Sublist"
begin

section \<open>JavaScript strings\<close>

text \<open>
  A JavaScript string is a sequence of UTF-16 code units. \<open>value.length\<close>,
  \<open>split('')\<close>, \<open>includes\<close>, \<open>trim\<close> and regular expressions without the
  \<open>u\<close> flag work on code units; the string iterator (\<open>for (const char of value)\<close>,
  \<open>new Set(value)\<close>) walks code points, joining a high surrogate and the low
  surrogate that follows it into one element.
\<close>

type_synonym char16 = "16 word"
type_synonym jsstring = "char16 list"

text \<open>A string literal of the source (all of them are Basic Latin).\<close>

definition js :: "string \<Rightarrow> jsstring" where
  "js s = map of_char s"

definition isHighSurrogate :: "char16 \<Rightarrow> bool" where
  "isHighSurrogate u = (0xD800 \<le> u \<and> u \<le> 0xDBFF)"

definition isLowSurrogate :: "char16 \<Rightarrow> bool" where
  "isLowSurrogate u = (0xDC00 \<le> u \<and> u \<le> 0xDFFF)"

text \<open>
  The string iterator: each element is a string of one code unit, or of two when a
  surrogate pair is met. A lone surrogate is an element of its own.
\<close>

fun codePoints :: "jsstring \<Rightarrow> jsstring list" where
  "codePoints [] = []"
| "codePoints [u] = [[u]]"
| "codePoints (u # v # rest) =
     (if isHighSurrogate u \<and> isLowSurrogate v then [u, v] # codePoints rest
      else [u] # codePoints (v # rest))"

text \<open>
  \<open>String.prototype.toLowerCase\<close> is a built-in and not code of the repository. It is
  modelled on the Basic Latin block, where \<open>A\<close>-\<open>Z\<close> map to \<open>a\<close>-\<open>z\<close>; every other
  code unit is kept. The built-in also maps cased letters outside Basic Latin. The
  general theorems below use of this definition at most that the empty string is
  mapped to itself and that white space is kept, which the built-in does too, so
  they hold for what the built-in returns; beyond that the definition is unfolded
  only to evaluate the handlers at concrete inputs, which are Basic Latin or have
  no case.
\<close>

definition lowerUnit :: "char16 \<Rightarrow> char16" where
  "lowerUnit u = (if 0x41 \<le> u \<and> u \<le> 0x5A then u + 0x20 else u)"

definition toLowerCase :: "jsstring \<Rightarrow> jsstring" where
  "toLowerCase s = map lowerUnit s"

text \<open>
  White space and line terminators of ECMAScript: what \<open>trim\<close> strips, what \<open>\s\<close>
  matches and what \<open>parseInt\<close> skips. All of them are single code units.
\<close>

definition isWhiteSpace :: "char16 \<Rightarrow> bool" where
  "isWhiteSpace u =
     (u \<in> {0x09, 0x0A, 0x0B, 0x0C, 0x0D, 0x20, 0xA0, 0x1680, 0x2028, 0x2029,
            0x202F, 0x205F, 0x3000, 0xFEFF}
      \<or> (0x2000 \<le> u \<and> u \<le> 0x200A))"

definition trim :: "jsstring \<Rightarrow> jsstring" where
  "trim s = rev (dropWhile isWhiteSpace (rev (dropWhile isWhiteSpace s)))"

text \<open>
  \<open>s.split(/\s+/)\<close>: the pieces between maximal runs of white space. A run at the
  start or at the end leaves an empty piece there, and the empty string splits
  into one empty piece.
\<close>

function split_ws :: "jsstring \<Rightarrow> jsstring list" where
  "split_ws s =
     (let tok = takeWhile (\<lambda>u. \<not> isWhiteSpace u) s;
          rest = dropWhile (\<lambda>u. \<not> isWhiteSpace u) s
      in if rest = [] then [tok] else tok # split_ws (dropWhile isWhiteSpace rest))"
  by pat_completeness auto
termination
proof (relation "measure length")
  show "wf (measure length)" by simp
next
  fix s :: jsstring and tok rest
  assume r: "rest = dropWhile (\<lambda>u. \<not> isWhiteSpace u) s" and ne: "rest \<noteq> []"
  from ne obtain x xs where rx: "rest = x # xs" by (cases rest) auto
  have "isWhiteSpace x"
    using r rx dropWhile_eq_Cons_conv [of "\<lambda>u. \<not> isWhiteSpace u" s x xs] by simp
  then have "length (dropWhile isWhiteSpace rest) \<le> length xs"
    using rx by (simp add: length_dropWhile_le)
  also have "length xs < length rest" using rx by simp
  also have "length rest \<le> length s" using r by (simp add: length_dropWhile_le)
  finally show "(dropWhile isWhiteSpace rest, s) \<in> measure length" by simp
qed

declare split_ws.simps [simp del]

text \<open>\<open>s.split('')\<close> cuts a string into its code units; \<open>join('')\<close> concatenates.\<close>

definition split_units :: "jsstring \<Rightarrow> jsstring list" where
  "split_units s = map (\<lambda>u. [u]) s"

definition join_units :: "jsstring list \<Rightarrow> jsstring" where
  "join_units xs = concat xs"

text \<open>\<open>s.includes(pat)\<close>: \<open>pat\<close> occurs in \<open>s\<close> as a contiguous run of code units.\<close>

fun includes_str :: "jsstring \<Rightarrow> jsstring \<Rightarrow> bool" where
  "includes_str [] pat = (pat = [])"
| "includes_str (u # s) pat = (prefix pat (u # s) \<or> includes_str s pat)"

section \<open>The stored data\<close>

text \<open>
  \<open>character_frequency_map\<close> is a plain object used as a dictionary; it is kept as
  an association list with distinct keys. \<open>length\<close> is named \<open>str_length\<close>, \<open>id\<close> and
  \<open>value\<close> are named \<open>s_id\<close> and \<open>s_value\<close>.
\<close>

record StringProperties =
  str_length :: nat
  is_palindrome :: bool
  unique_characters :: nat
  word_count :: nat
  sha256_hash :: jsstring
  character_frequency_map :: "(jsstring \<times> nat) list"

record StoredString =
  s_id :: jsstring
  s_value :: jsstring
  s_properties :: StringProperties
  created_at :: nat

text \<open>
  One step of the loop over the code points:
  \<open>character_frequency_map[char] = (character_frequency_map[char] || 0) + 1\<close>.
\<close>

definition count_char :: "jsstring \<Rightarrow> (jsstring \<times> nat) list \<Rightarrow> (jsstring \<times> nat) list" where
  "count_char c m =
     AList.update c ((case map_of m c of None \<Rightarrow> 0 | Some n \<Rightarrow> n) + 1) m"

text \<open>
  \<open>analyzeString\<close>. The hash (\<open>crypto.createHash('sha256')\<close>, hex digest) is an
  external primitive and is taken as the parameter \<open>sha256\<close>.
\<close>

definition analyzeString :: "(jsstring \<Rightarrow> jsstring) \<Rightarrow> jsstring \<Rightarrow> StringProperties" where
  "analyzeString sha256 v =
     (let lowerValue = toLowerCase v in
      \<lparr> str_length = length v,
        is_palindrome = (lowerValue = join_units (rev (split_units lowerValue))),
        unique_characters = length (remdups (codePoints v)),
        word_count = length (filter (\<lambda>w. length w > 0) (split_ws (trim v))),
        sha256_hash = sha256 v,
        character_frequency_map = fold count_char (codePoints v) [] \<rparr>)"

section \<open>JavaScript numbers\<close>

text \<open>
  A JavaScript number is an IEEE-754 double. The handlers only meet integers, the
  two infinities and \<open>NaN\<close> (\<open>parseInt\<close> and \<open>+ 1\<close> produce nothing else), so
  \<open>Num n\<close> stands for the double whose value is the integer \<open>n\<close>; the two zeros are
  not told apart (no handler can observe the difference).
\<close>

datatype jsnum = Num int | PosInf | NegInf | NaN

fun bit_length :: "nat \<Rightarrow> nat" where
  "bit_length n = (if n = 0 then 0 else Suc (bit_length (n div 2)))"

declare bit_length.simps [simp del]

text \<open>
  Rounding of a natural number to the nearest double, ties to the even significand
  (53 bits); \<open>None\<close> is the overflow to infinity. Integers below \<open>2 ^ 53\<close> are exact.
\<close>

definition round_nat :: "nat \<Rightarrow> nat option" where
  "round_nat m =
     (if m < 2 ^ 53 then Some m
      else let e = bit_length m - 53;
               q = m div 2 ^ e;
               r = m mod 2 ^ e;
               half = 2 ^ (e - 1);
               q' = (if r > half \<or> (r = half \<and> odd q) then q + 1 else q);
               d = q' * 2 ^ e
           in if d \<ge> 2 ^ 1024 then None else Some d)"

definition to_double :: "int \<Rightarrow> jsnum" where
  "to_double i =
     (case round_nat (nat \<bar>i\<bar>) of
        None \<Rightarrow> (if i < 0 then NegInf else PosInf)
      | Some d \<Rightarrow> Num (if i < 0 then - int d else int d))"

text \<open>\<open>x + 1\<close> on a number: the exact sum, rounded.\<close>

fun js_add1 :: "jsnum \<Rightarrow> jsnum" where
  "js_add1 (Num n) = to_double (n + 1)"
| "js_add1 PosInf = PosInf"
| "js_add1 NegInf = NegInf"
| "js_add1 NaN = NaN"

definition isNaN :: "jsnum \<Rightarrow> bool" where
  "isNaN x = (x = NaN)"

text \<open>
  The comparisons of the filters, between a property of a record (a length or a word
  count, a natural number) and a filter value: \<open>p >= x\<close>, \<open>p <= x\<close> and \<open>p === x\<close>.
  Every comparison with \<open>NaN\<close> is false.
\<close>

fun num_ge :: "nat \<Rightarrow> jsnum \<Rightarrow> bool" where
  "num_ge p (Num n) = (int p \<ge> n)"
| "num_ge p PosInf = False"
| "num_ge p NegInf = True"
| "num_ge p NaN = False"

fun num_le :: "nat \<Rightarrow> jsnum \<Rightarrow> bool" where
  "num_le p (Num n) = (int p \<le> n)"
| "num_le p PosInf = True"
| "num_le p NegInf = False"
| "num_le p NaN = False"

fun num_eq :: "nat \<Rightarrow> jsnum \<Rightarrow> bool" where
  "num_eq p (Num n) = (int p = n)"
| "num_eq p PosInf = False"
| "num_eq p NegInf = False"
| "num_eq p NaN = False"

definition isDigit :: "char16 \<Rightarrow> bool" where
  "isDigit u = (0x30 \<le> u \<and> u \<le> 0x39)"

definition digits_value :: "jsstring \<Rightarrow> int" where
  "digits_value ds = foldl (\<lambda>a u. 10 * a + (uint u - 48)) 0 ds"

text \<open>
  \<open>parseInt(s, 10)\<close>: leading white space is skipped, one sign is read, then the
  longest run of decimal digits; what follows the digits is ignored. No digit gives
  \<open>NaN\<close>. The value is the double nearest to the numeral (for numerals of more than
  20 significant digits ECMAScript lets an implementation round the digits after
  the 20th down first; the model rounds the exact value).
\<close>

definition parseInt10 :: "jsstring \<Rightarrow> jsnum" where
  "parseInt10 s =
     (let s1 = dropWhile isWhiteSpace s;
          neg = (s1 \<noteq> [] \<and> hd s1 = 0x2D);
          s2 = (if s1 \<noteq> [] \<and> (hd s1 = 0x2B \<or> hd s1 = 0x2D) then tl s1 else s1);
          ds = takeWhile isDigit s2
      in if ds = [] then NaN
         else to_double (if neg then - digits_value ds else digits_value ds))"

text \<open>
  \<open>lowerQuery.match(/longer than (\d+) characters/)\<close>, giving the capture group
  \<open>match[1]\<close> of the leftmost match, or \<open>None\<close> for \<open>null\<close>. At one position the
  pattern matches when \<open>longer than \<close> is followed by a run of digits and by
  \<open> characters\<close>; since a space is not a digit, the run is the longest one.
\<close>

definition match_longer_at :: "jsstring \<Rightarrow> jsstring option" where
  "match_longer_at s =
     (if prefix (js ''longer than '') s
      then let rest = drop (length (js ''longer than '')) s;
               ds = takeWhile isDigit rest
           in if ds \<noteq> [] \<and> prefix (js '' characters'') (dropWhile isDigit rest)
              then Some ds else None
      else None)"

fun match_longer :: "jsstring \<Rightarrow> jsstring option" where
  "match_longer [] = None"
| "match_longer (u # s) =
     (case match_longer_at (u # s) of
        Some ds \<Rightarrow> Some ds
      | None \<Rightarrow> match_longer s)"

section \<open>The store and the responses\<close>

text \<open>
  \<open>stringStore\<close> is a \<open>Map\<close> from the hash to the record; a \<open>Map\<close> keeps its
  entries in insertion order, so it is an association list. \<open>has\<close>, \<open>set\<close> and
  \<open>values\<close> are \<open>store_has\<close>, \<open>AList.update\<close> (which replaces in place or
  appends) and \<open>store_values\<close>.
\<close>

type_synonym store = "(jsstring \<times> StoredString) list"

definition store_has :: "store \<Rightarrow> jsstring \<Rightarrow> bool" where
  "store_has st k = (map_of st k \<noteq> None)"

definition store_values :: "store \<Rightarrow> StoredString list" where
  "store_values st = map snd st"

text \<open>
  The error responses, named as the specification names them. In the source each
  is a status with a message:
  \<^item> \<open>MissingField\<close>: 400, \<open>Bad Request: Missing "value" field\<close>;
  \<^item> \<open>InvalidType\<close>: 422, \<open>Unprocessable Entity: Invalid data type for "value" (must be string)\<close>;
  \<^item> \<open>Conflict\<close>: 409, \<open>Conflict: String already exists in the system\<close>;
  \<^item> \<open>BadQuery\<close>: 400, \<open>Bad Request : Unable to parse natural language query\<close>;
  \<^item> \<open>ConflictingFilters\<close>: 422, \<open>Unprocessable Entity: Query parsed but resulted in conflicting filters\<close>;
  \<^item> \<open>InvalidFilterValue f\<close>: 400, \<open>Bad Request: Invalid query parameter value for f\<close>
    for the three numeric filters and \<open>Bad Request: contains_character must be a single character\<close>
    for \<open>contains_character\<close>. No message names \<open>is_palindrome\<close>.
  An error response carries the \<open>error\<close> field only.
\<close>

datatype filter_name = F_min_length | F_max_length | F_word_count | F_contains_character

datatype error =
    MissingField
  | InvalidType
  | Conflict
  | BadQuery
  | ConflictingFilters
  | InvalidFilterValue filter_name

text \<open>
  The filter objects \<open>parsedFilters\<close> and \<open>filtersApplied\<close>: a key that is not set
  is \<open>None\<close>.
\<close>

record Filters =
  f_is_palindrome :: "bool option"
  f_min_length :: "jsnum option"
  f_max_length :: "jsnum option"
  f_word_count :: "jsnum option"
  f_contains_character :: "jsstring option"

definition no_filters :: Filters where
  "no_filters = \<lparr> f_is_palindrome = None, f_min_length = None, f_max_length = None,
                  f_word_count = None, f_contains_character = None \<rparr>"

record Listing =
  data :: "StoredString list"
  count :: nat

record NLResponse = Listing +
  interpreted_original :: jsstring
  interpreted_parsed_filters :: Filters

record FilterResponse = Listing +
  filters_applied :: "Filters option"

section \<open>POST /strings\<close>

text \<open>
  The \<open>value\<close> field of the request body: absent, a string, or a JSON value of
  another type. \<open>now\<close> is what \<open>new Date()\<close> returns. The handler returns the store
  it leaves and the response.
\<close>

datatype body_value = Undefined | JString jsstring | JOther

definition post_strings ::
  "(jsstring \<Rightarrow> jsstring) \<Rightarrow> nat \<Rightarrow> store \<Rightarrow> body_value \<Rightarrow> store \<times> (error + StoredString)" where
  "post_strings sha256 now st body =
     (case body of
        Undefined \<Rightarrow> (st, Inl MissingField)
      | JOther \<Rightarrow> (st, Inl InvalidType)
      | JString v \<Rightarrow>
          (let properties = analyzeString sha256 v;
               ident = sha256_hash properties
           in if store_has st ident then (st, Inl Conflict)
              else let newString = \<lparr> s_id = ident, s_value = v,
                                      s_properties = properties, created_at = now \<rparr>
                   in (AList.update ident newString st, Inr newString)))"

section \<open>GET /strings/filter-by-natural-language\<close>

text \<open>
  The \<open>query\<close> parameter as Express hands it over: absent, a string, or an array or
  object (a repeated or bracketed parameter).
\<close>

datatype query_param = QMissing | QStr jsstring | QOther

text \<open>Lines 97 to 123 of the handler: the rules that build \<open>parsedFilters\<close>, in order.\<close>

definition parseQuery :: "jsstring \<Rightarrow> Filters" where
  "parseQuery query =
     (let lowerQuery = toLowerCase query;
          pf0 = no_filters;
          pf1 = (if includes_str lowerQuery (js ''single word'')
                 then pf0\<lparr>f_word_count := Some (Num 1)\<rparr> else pf0);
          pf2 = (if includes_str lowerQuery (js ''palindromic'')
                    \<and> \<not> includes_str lowerQuery (js ''not palindromic'')
                 then pf1\<lparr>f_is_palindrome := Some True\<rparr> else pf1);
          pf3 = (if includes_str lowerQuery (js ''not palindromic'')
                 then pf2\<lparr>f_is_palindrome := Some False\<rparr> else pf2);
          pf4 = (if includes_str lowerQuery (js ''first vowel'')
                 then pf3\<lparr>f_contains_character := Some (js ''a'')\<rparr> else pf3);
          pf5 = (if includes_str lowerQuery (js ''letter z'')
                 then pf4\<lparr>f_contains_character := Some (js ''z'')\<rparr> else pf4);
          pf6 = (if includes_str lowerQuery (js ''longer than'')
                 then (case match_longer lowerQuery of
                         None \<Rightarrow> pf5
                       | Some m1 \<Rightarrow>
                           if m1 \<noteq> []
                           then pf5\<lparr>f_min_length := Some (js_add1 (parseInt10 m1))\<rparr>
                           else pf5)
                 else pf5)
      in pf6)"

text \<open>Lines 126 to 139: the four filters the handler applies, in order.\<close>

definition apply_parsed :: "Filters \<Rightarrow> StoredString list \<Rightarrow> StoredString list" where
  "apply_parsed pf xs =
     (let xs1 = (case f_word_count pf of None \<Rightarrow> xs
                 | Some w \<Rightarrow> filter (\<lambda>s. num_eq (word_count (s_properties s)) w) xs);
          xs2 = (case f_is_palindrome pf of None \<Rightarrow> xs1
                 | Some b \<Rightarrow> filter (\<lambda>s. is_palindrome (s_properties s) = b) xs1);
          xs3 = (case f_min_length pf of None \<Rightarrow> xs2
                 | Some n \<Rightarrow> filter (\<lambda>s. num_ge (str_length (s_properties s)) n) xs2);
          xs4 = (case f_contains_character pf of None \<Rightarrow> xs3
                 | Some c \<Rightarrow> filter (\<lambda>s. includes_str (s_value s) c) xs3)
      in xs4)"

definition filter_by_natural_language :: "store \<Rightarrow> query_param \<Rightarrow> error + NLResponse" where
  "filter_by_natural_language st q =
     (case q of
        QMissing \<Rightarrow> Inl BadQuery
      | QOther \<Rightarrow> Inl BadQuery
      | QStr query \<Rightarrow>
          if query = [] then Inl BadQuery
          else let parsedFilters = parseQuery query;
                   filteredStrings = apply_parsed parsedFilters (store_values st)
               in if f_word_count parsedFilters = Some (Num 1)
                     \<and> f_is_palindrome parsedFilters = Some False
                  then Inl ConflictingFilters
                  else Inr \<lparr> data = filteredStrings, count = length filteredStrings,
                             interpreted_original = query,
                             interpreted_parsed_filters = parsedFilters \<rparr>)"

section \<open>GET /strings\<close>

text \<open>
  The five query parameters, each absent or a string (the source casts them with
  \<open>as string\<close>). The handler threads \<open>filteredStrings\<close> and \<open>filtersApplied\<close> through
  five blocks; a block that rejects its parameter returns at once.
\<close>

record FilterQuery =
  q_is_palindrome :: "jsstring option"
  q_min_length :: "jsstring option"
  q_max_length :: "jsstring option"
  q_word_count :: "jsstring option"
  q_contains_character :: "jsstring option"

type_synonym filter_state = "StoredString list \<times> Filters"

definition step_is_palindrome :: "FilterQuery \<Rightarrow> filter_state \<Rightarrow> error + filter_state" where
  "step_is_palindrome q = (\<lambda>(xs, fa).
     case q_is_palindrome q of
       None \<Rightarrow> Inr (xs, fa)
     | Some p \<Rightarrow>
         let isPalindrome = (p = js ''true'')
         in Inr (filter (\<lambda>s. is_palindrome (s_properties s) = isPalindrome) xs,
                 fa\<lparr>f_is_palindrome := Some isPalindrome\<rparr>))"

definition step_min_length :: "FilterQuery \<Rightarrow> filter_state \<Rightarrow> error + filter_state" where
  "step_min_length q = (\<lambda>(xs, fa).
     case q_min_length q of
       None \<Rightarrow> Inr (xs, fa)
     | Some p \<Rightarrow>
         let minLength = parseInt10 p
         in if isNaN minLength then Inl (InvalidFilterValue F_min_length)
            else Inr (filter (\<lambda>s. num_ge (str_length (s_properties s)) minLength) xs,
                      fa\<lparr>f_min_length := Some minLength\<rparr>))"

definition step_max_length :: "FilterQuery \<Rightarrow> filter_state \<Rightarrow> error + filter_state" where
  "step_max_length q = (\<lambda>(xs, fa).
     case q_max_length q of
       None \<Rightarrow> Inr (xs, fa)
     | Some p \<Rightarrow>
         let maxLength = parseInt10 p
         in if isNaN maxLength then Inl (InvalidFilterValue F_max_length)
            else Inr (filter (\<lambda>s. num_le (str_length (s_properties s)) maxLength) xs,
                      fa\<lparr>f_max_length := Some maxLength\<rparr>))"

definition step_word_count :: "FilterQuery \<Rightarrow> filter_state \<Rightarrow> error + filter_state" where
  "step_word_count q = (\<lambda>(xs, fa).
     case q_word_count q of
       None \<Rightarrow> Inr (xs, fa)
     | Some p \<Rightarrow>
         let wordCount = parseInt10 p
         in if isNaN wordCount then Inl (InvalidFilterValue F_word_count)
            else Inr (filter (\<lambda>s. num_eq (word_count (s_properties s)) wordCount) xs,
                      fa\<lparr>f_word_count := Some wordCount\<rparr>))"

definition step_contains_character :: "FilterQuery \<Rightarrow> filter_state \<Rightarrow> error + filter_state" where
  "step_contains_character q = (\<lambda>(xs, fa).
     case q_contains_character q of
       None \<Rightarrow> Inr (xs, fa)
     | Some containsCharacter \<Rightarrow>
         if length containsCharacter \<noteq> 1 then Inl (InvalidFilterValue F_contains_character)
         else Inr (filter (\<lambda>s. includes_str (s_value s) containsCharacter) xs,
                   fa\<lparr>f_contains_character := Some containsCharacter\<rparr>))"

definition and_then :: "error + 'a \<Rightarrow> ('a \<Rightarrow> error + 'b) \<Rightarrow> error + 'b" where
  "and_then r f = (case r of Inl e \<Rightarrow> Inl e | Inr x \<Rightarrow> f x)"

definition get_strings :: "store \<Rightarrow> FilterQuery \<Rightarrow> error + FilterResponse" where
  "get_strings st q =
     and_then (step_is_palindrome q (store_values st, no_filters)) (\<lambda>s1.
     and_then (step_min_length q s1) (\<lambda>s2.
     and_then (step_max_length q s2) (\<lambda>s3.
     and_then (step_word_count q s3) (\<lambda>s4.
     and_then (step_contains_character q s4) (\<lambda>(filteredStrings, filtersApplied).
       Inr \<lparr> data = filteredStrings, count = length filteredStrings,
             filters_applied =
               (if filtersApplied = no_filters then None else Some filtersApplied) \<rparr>)))))"

section \<open>Definitions used to state and prove the properties\<close>

text \<open>
  The pattern of the sixth rule in the words of the specification, to compare the
  regular expression with: \<open>longer than N characters\<close> occurs in \<open>s\<close> after the
  prefix \<open>pre\<close>, where the numeral \<open>ds\<close> is a non-empty run of decimal digits; and
  \<open>ds\<close> is the numeral of the first (leftmost) occurrence.
\<close>

definition pattern_occurs :: "jsstring \<Rightarrow> jsstring \<Rightarrow> jsstring \<Rightarrow> bool" where
  "pattern_occurs s pre ds =
     (\<exists>post. s = pre @ js ''longer than '' @ ds @ js '' characters'' @ post
             \<and> ds \<noteq> [] \<and> list_all isDigit ds)"

definition first_pattern :: "jsstring \<Rightarrow> jsstring \<Rightarrow> bool" where
  "first_pattern s ds =
     (\<exists>pre. pattern_occurs s pre ds
           \<and> (\<forall>pre' ds'. pattern_occurs s pre' ds' \<longrightarrow> length pre \<le> length pre'))"

text \<open>
  \<open>GET /strings\<close> cut in three: the first four blocks, the \<open>contains_character\<close>
  block, and the response (lemma \<open>get_strings_split\<close>).
\<close>

definition first_steps :: "store \<Rightarrow> FilterQuery \<Rightarrow> error + filter_state" where
  "first_steps st q =
     and_then (step_is_palindrome q (store_values st, no_filters)) (\<lambda>s1.
     and_then (step_min_length q s1) (\<lambda>s2.
     and_then (step_max_length q s2) (\<lambda>s3.
     step_word_count q s3)))"

definition finish :: "filter_state \<Rightarrow> error + FilterResponse" where
  "finish = (\<lambda>(filteredStrings, filtersApplied).
       Inr \<lparr> data = filteredStrings, count = length filteredStrings,
             filters_applied =
               (if filtersApplied = no_filters then None else Some filtersApplied) \<rparr>)"

section \<open>The property analyzer\<close>

lemma count_char_keys:
  "map fst (count_char c m) = (if c \<in> fst ` set m then map fst m else map fst m @ [c])"
  by (simp add: count_char_def AList.update_keys)

lemma count_char_sum: "sum_list (map snd (count_char c m)) = Suc (sum_list (map snd m))"
proof -
  have "sum_list (map snd (AList.update c ((case map_of m c of None \<Rightarrow> 0 | Some n \<Rightarrow> n) + k) m))
      = sum_list (map snd m) + k" for k
    by (induction m) (auto split: option.splits)
  from this [of 1] show ?thesis by (simp add: count_char_def)
qed

lemma fold_count_char_sum:
  "sum_list (map snd (fold count_char cs m)) = sum_list (map snd m) + length cs"
  by (induction cs arbitrary: m) (simp_all add: count_char_sum)

lemma fold_count_char_keys:
  "distinct (map fst m) \<Longrightarrow>
   distinct (map fst (fold count_char cs m)) \<and>
   set (map fst (fold count_char cs m)) = set (map fst m) \<union> set cs"
proof (induction cs arbitrary: m)
  case Nil
  then show ?case by simp
next
  case (Cons c cs)
  have d: "distinct (map fst (count_char c m))"
    using Cons.prems by (simp add: count_char_keys)
  have s: "set (map fst (count_char c m)) = insert c (set (map fst m))"
    by (auto simp: count_char_keys)
  from Cons.IH [OF d] s show ?case by auto
qed

text \<open>
  The frequency map counts code points: its values add up to the number of code
  points of the value, and its keys are the distinct code points, as many as
  \<open>unique_characters\<close>.
\<close>

lemma frequency_sum:
  "sum_list (map snd (character_frequency_map (analyzeString sha256 v))) = length (codePoints v)"
  by (simp add: analyzeString_def Let_def fold_count_char_sum)

lemma frequency_keys:
  "unique_characters (analyzeString sha256 v)
     = length (character_frequency_map (analyzeString sha256 v))"
proof -
  let ?m = "fold count_char (codePoints v) []"
  have k: "distinct (map fst ?m) \<and> set (map fst ?m) = set (codePoints v)"
    using fold_count_char_keys [of "[]" "codePoints v"] by simp
  have "length ?m = length (map fst ?m)" by simp
  also have "\<dots> = card (set (map fst ?m))" using k distinct_card by metis
  also have "\<dots> = length (remdups (codePoints v))"
    using k by (simp add: length_remdups_card_conv)
  finally show ?thesis by (simp add: analyzeString_def Let_def)
qed

text \<open>The code points of a string are a partition of its code units.\<close>

lemma codePoints_concat: "concat (codePoints s) = s"
  by (induction s rule: codePoints.induct) auto

lemma codePoints_length_le: "length (codePoints s) \<le> length s"
  by (induction s rule: codePoints.induct) auto

lemma join_rev_split: "join_units (rev (split_units s)) = rev s"
  by (induction s) (simp_all add: join_units_def split_units_def)

text \<open>The palindrome test reverses the code units of the lower-cased value.\<close>

lemma is_palindrome_rev:
  "is_palindrome (analyzeString sha256 v) = (toLowerCase v = rev (toLowerCase v))"
  by (simp add: analyzeString_def Let_def join_rev_split)

lemmas analyze_eval =
  analyzeString_def toLowerCase_def lowerUnit_def Let_def split_units_def join_units_def
  trim_def split_ws.simps isWhiteSpace_def isHighSurrogate_def isLowSurrogate_def
  count_char_def

text \<open>
  C1. The claim: length, palindrome test and frequency map all work on the code
  points of the value, so that a surrogate pair is never split. The frequency map
  does (lemma \<open>frequency_sum\<close>), but \<open>value.length\<close> and \<open>split('')\<close> work on
  UTF-16 code units. For the one-character string U+1F600 (the code units D83D
  DE00), which is a single code point, the analyzer returns length 2 and
  \<open>is_palindrome = false\<close>, while the frequency map has the single key U+1F600.
\<close>

theorem analyzeString_splits_surrogate_pair:
  "codePoints [0xD83D, 0xDE00] = [[0xD83D, 0xDE00]]
   \<and> str_length (analyzeString sha256 [0xD83D, 0xDE00]) = 2
   \<and> \<not> is_palindrome (analyzeString sha256 [0xD83D, 0xDE00])
   \<and> map fst (character_frequency_map (analyzeString sha256 [0xD83D, 0xDE00]))
       = [[0xD83D, 0xDE00]]"
  by (simp add: analyze_eval)

text \<open>
  C2. The claim: the values of \<open>character_frequency_map\<close> add up to \<open>length\<close>, and
  \<open>unique_characters\<close> is the number of its keys. The second half holds for every
  value (lemma \<open>frequency_keys\<close>). The first fails as soon as the value has a
  surrogate pair: the values add up to the number of code points (lemma
  \<open>frequency_sum\<close>) and \<open>length\<close> is the number of code units. For U+1F600 the sum
  is 1 and the length is 2.
\<close>

theorem frequency_sum_is_not_length:
  "sum_list (map snd (character_frequency_map (analyzeString sha256 [0xD83D, 0xDE00]))) = 1
   \<and> str_length (analyzeString sha256 [0xD83D, 0xDE00]) = 2
   \<and> unique_characters (analyzeString sha256 [0xD83D, 0xDE00]) = 1
   \<and> length (character_frequency_map (analyzeString sha256 [0xD83D, 0xDE00])) = 1"
  by (simp add: analyze_eval)

text \<open>
  C10. For the empty string the analyzer returns length 0, no word, no character,
  the empty frequency map, and \<open>is_palindrome = true\<close>.
\<close>

theorem analyzeString_empty:
  "analyzeString sha256 [] =
     \<lparr> str_length = 0, is_palindrome = True, unique_characters = 0, word_count = 0,
       sha256_hash = sha256 [], character_frequency_map = [] \<rparr>"
  by (simp add: analyze_eval)

section \<open>Insertion\<close>

lemma sha256_hash_analyzeString: "sha256_hash (analyzeString sha256 v) = sha256 v"
  by (simp add: analyzeString_def Let_def)

lemma store_has_update: "store_has (AList.update k x st) k"
  by (simp add: store_has_def update_conv')

lemma post_strings_existing:
  "store_has st (sha256 v) \<Longrightarrow> post_strings sha256 now st (JString v) = (st, Inl Conflict)"
  by (simp add: post_strings_def Let_def sha256_hash_analyzeString)

lemma post_strings_has:
  "store_has (fst (post_strings sha256 now st (JString v))) (sha256 v)"
  by (simp add: post_strings_def Let_def sha256_hash_analyzeString store_has_update)

lemmas post_eval = post_strings_def store_has_def analyze_eval js_def

text \<open>
  C8. Inserting a value whose identity is already in the store fails with
  \<open>Conflict\<close> and leaves the store as it was. In particular a second insertion of
  the same value, right after the first, fails with \<open>Conflict\<close>, the store after
  it is the store after the first insertion, and the record found under the
  identity is the one the first insertion created (with the first time stamp).
\<close>

theorem second_insert_conflict:
  "(store_has st (sha256 v) \<longrightarrow> post_strings sha256 now st (JString v) = (st, Inl Conflict))
   \<and> post_strings sha256 now' (fst (post_strings sha256 now st (JString v))) (JString v)
       = (fst (post_strings sha256 now st (JString v)), Inl Conflict)
   \<and> (\<not> store_has st (sha256 v) \<longrightarrow>
        snd (post_strings sha256 now st (JString v))
          = Inr \<lparr> s_id = sha256 v, s_value = v, s_properties = analyzeString sha256 v,
                  created_at = now \<rparr>
        \<and> map_of (fst (post_strings sha256 now' (fst (post_strings sha256 now st (JString v)))
                          (JString v))) (sha256 v)
          = Some \<lparr> s_id = sha256 v, s_value = v, s_properties = analyzeString sha256 v,
                   created_at = now \<rparr>)"
proof (intro conjI impI)
  assume "store_has st (sha256 v)"
  then show "post_strings sha256 now st (JString v) = (st, Inl Conflict)"
    by (rule post_strings_existing)
next
  show c: "post_strings sha256 now' (fst (post_strings sha256 now st (JString v))) (JString v)
       = (fst (post_strings sha256 now st (JString v)), Inl Conflict)"
    using post_strings_has by (rule post_strings_existing)
  assume n: "\<not> store_has st (sha256 v)"
  then show "snd (post_strings sha256 now st (JString v))
          = Inr \<lparr> s_id = sha256 v, s_value = v, s_properties = analyzeString sha256 v,
                  created_at = now \<rparr>"
    by (simp add: post_strings_def Let_def sha256_hash_analyzeString)
  from n have "map_of (fst (post_strings sha256 now st (JString v))) (sha256 v)
          = Some \<lparr> s_id = sha256 v, s_value = v, s_properties = analyzeString sha256 v,
                   created_at = now \<rparr>"
    by (simp add: post_strings_def Let_def sha256_hash_analyzeString update_conv')
  then show "map_of (fst (post_strings sha256 now' (fst (post_strings sha256 now st (JString v)))
                          (JString v))) (sha256 v)
          = Some \<lparr> s_id = sha256 v, s_value = v, s_properties = analyzeString sha256 v,
                   created_at = now \<rparr>"
    unfolding c by simp
qed

text \<open>
  The value \<open>hello\<close> posted twice into the empty store, at the times 7 and 9, with
  the identity function standing for the hash.
\<close>

theorem second_insert_conflict_witness:
  "\<not> store_has [] (js ''hello'')
   \<and> store_has (fst (post_strings (\<lambda>v. v) 7 [] (JString (js ''hello'')))) (js ''hello'')
   \<and> post_strings (\<lambda>v. v) 9 (fst (post_strings (\<lambda>v. v) 7 [] (JString (js ''hello''))))
        (JString (js ''hello''))
       = (fst (post_strings (\<lambda>v. v) 7 [] (JString (js ''hello''))), Inl Conflict)
   \<and> map_option created_at
        (map_of (fst (post_strings (\<lambda>v. v) 9
                   (fst (post_strings (\<lambda>v. v) 7 [] (JString (js ''hello''))))
                   (JString (js ''hello'')))) (js ''hello'')) = Some 7"
proof -
  have n: "\<not> store_has [] (js ''hello'')" by (simp add: store_has_def)
  have h: "store_has (fst (post_strings (\<lambda>v. v) 7 [] (JString (js ''hello'')))) (js ''hello'')"
    by (simp add: post_strings_def Let_def sha256_hash_analyzeString store_has_def)
  show ?thesis
    using n h second_insert_conflict [of "[]" "\<lambda>v. v" "js ''hello''" 7 9]
      second_insert_conflict
        [of "fst (post_strings (\<lambda>v. v) 7 [] (JString (js ''hello'')))" "\<lambda>v. v" "js ''hello''" 9 9]
    by simp
qed

section \<open>The natural-language translator\<close>

lemma no_filters_sel [simp]:
  "f_is_palindrome no_filters = None" "f_min_length no_filters = None"
  "f_max_length no_filters = None" "f_word_count no_filters = None"
  "f_contains_character no_filters = None"
  by (simp_all add: no_filters_def)

lemma parseQuery_word_count:
  "f_word_count (parseQuery query) =
     (if includes_str (toLowerCase query) (js ''single word'') then Some (Num 1) else None)"
  by (simp add: parseQuery_def Let_def no_filters_def split: option.splits)

lemma parseQuery_is_palindrome:
  "f_is_palindrome (parseQuery query) =
     (if includes_str (toLowerCase query) (js ''not palindromic'') then Some False
      else if includes_str (toLowerCase query) (js ''palindromic'') then Some True
      else None)"
  by (auto simp add: parseQuery_def Let_def no_filters_def split: option.splits)

lemmas parse_eval =
  parseQuery_def no_filters_def toLowerCase_def lowerUnit_def Let_def js_def
  match_longer_at_def isDigit_def parseInt10_def isWhiteSpace_def digits_value_def
  to_double_def round_nat_def bit_length.simps

lemmas nl_eval =
  filter_by_natural_language_def parseQuery_def apply_parsed_def store_values_def
  no_filters_def toLowerCase_def lowerUnit_def Let_def js_def

text \<open>
  A query of white space only meets no rule: lower-casing keeps white space, and
  each keyword of the rules has the letter \<open>l\<close>, which is not white space.
\<close>

lemma includes_str_set: "includes_str s pat \<Longrightarrow> set pat \<subseteq> set s"
proof (induction s)
  case Nil
  then show ?case by simp
next
  case (Cons u s)
  from Cons.prems consider "prefix pat (u # s)" | "includes_str s pat" by auto
  then show ?case
  proof cases
    case 1
    then show ?thesis by (rule set_mono_prefix)
  next
    case 2
    then show ?thesis using Cons.IH by auto
  qed
qed

lemma lowerUnit_whitespace: "isWhiteSpace u \<Longrightarrow> lowerUnit u = u"
  by (auto simp: isWhiteSpace_def lowerUnit_def word_le_nat_alt)

lemma toLowerCase_whitespace: "list_all isWhiteSpace s \<Longrightarrow> toLowerCase s = s"
  by (induction s) (simp_all add: toLowerCase_def lowerUnit_whitespace)

lemma whitespace_no_keyword:
  assumes w: "list_all isWhiteSpace s" and l: "0x6C \<in> set pat"
  shows "\<not> includes_str (toLowerCase s) pat"
proof
  assume "includes_str (toLowerCase s) pat"
  then have "set pat \<subseteq> set s" using includes_str_set toLowerCase_whitespace [OF w] by metis
  then have "isWhiteSpace 0x6C" using l w by (auto simp: list_all_iff)
  then show False by (simp add: isWhiteSpace_def)
qed

lemma parseQuery_whitespace: "list_all isWhiteSpace query \<Longrightarrow> parseQuery query = no_filters"
proof -
  assume w: "list_all isWhiteSpace query"
  have "\<not> includes_str (toLowerCase query) (js ''single word'')"
    "\<not> includes_str (toLowerCase query) (js ''palindromic'')"
    "\<not> includes_str (toLowerCase query) (js ''not palindromic'')"
    "\<not> includes_str (toLowerCase query) (js ''first vowel'')"
    "\<not> includes_str (toLowerCase query) (js ''letter z'')"
    "\<not> includes_str (toLowerCase query) (js ''longer than'')"
    by (rule whitespace_no_keyword [OF w], simp add: js_def)+
  then show ?thesis by (simp add: parseQuery_def Let_def)
qed

lemma apply_parsed_no_filters: "apply_parsed no_filters xs = xs"
  by (simp add: apply_parsed_def)

text \<open>
  C3, as the code has it. The handler answers \<open>BadQuery\<close> to an absent query
  parameter, to one that is not a string, and to the empty query string, and to
  no other string. There is no trimming: a non-empty query of white space only is
  translated to no filter at all, and the answer is the whole collection, with
  its count, the query and the empty filter set as the interpretation.
\<close>

theorem bad_query_iff_empty:
  "filter_by_natural_language st QMissing = Inl BadQuery
   \<and> filter_by_natural_language st QOther = Inl BadQuery
   \<and> (filter_by_natural_language st (QStr query) = Inl BadQuery) = (query = [])
   \<and> (query \<noteq> [] \<and> list_all isWhiteSpace query \<longrightarrow>
        filter_by_natural_language st (QStr query)
          = Inr \<lparr> data = store_values st, count = length (store_values st),
                  interpreted_original = query,
                  interpreted_parsed_filters = no_filters \<rparr>)"
  by (simp add: filter_by_natural_language_def Let_def parseQuery_whitespace
        apply_parsed_no_filters)

text \<open>
  The absent parameter, the non-string parameter, the empty query and the query
  \<open>all strings\<close> on the empty store; and the query of three spaces on the store
  that holds \<open>hi\<close> and \<open>hello world\<close> (the identity function stands for the hash),
  which returns both records.
\<close>

theorem bad_query_iff_empty_witness:
  "filter_by_natural_language [] QMissing = Inl BadQuery
   \<and> filter_by_natural_language [] QOther = Inl BadQuery
   \<and> filter_by_natural_language [] (QStr []) = Inl BadQuery
   \<and> filter_by_natural_language [] (QStr (js ''all strings'')) \<noteq> Inl BadQuery
   \<and> list_all isWhiteSpace (js ''   '')
   \<and> map_sum id (\<lambda>r. (map s_value (data r), count r, interpreted_parsed_filters r))
        (filter_by_natural_language
           (fst (post_strings (\<lambda>v. v) 1 (fst (post_strings (\<lambda>v. v) 0 [] (JString (js ''hi''))))
                 (JString (js ''hello world''))))
           (QStr (js ''   '')))
       = Inr ([js ''hi'', js ''hello world''], 2, no_filters)"
proof -
  let ?st = "fst (post_strings (\<lambda>v. v) 1 (fst (post_strings (\<lambda>v. v) 0 [] (JString (js ''hi''))))
                 (JString (js ''hello world'')))"
  have w: "js ''   '' \<noteq> [] \<and> list_all isWhiteSpace (js ''   '')"
    by (simp add: js_def isWhiteSpace_def)
  have 1: "filter_by_natural_language ?st (QStr (js ''   ''))
          = Inr \<lparr> data = store_values ?st, count = length (store_values ?st),
                  interpreted_original = js ''   '',
                  interpreted_parsed_filters = no_filters \<rparr>"
    using bad_query_iff_empty [of ?st "js ''   ''"] w by blast
  have 2: "map s_value (store_values ?st) = [js ''hi'', js ''hello world'']"
    by (simp add: post_eval store_values_def)
  have "length (map s_value (store_values ?st)) = 2" unfolding 2 by simp
  then have 3: "length (store_values ?st) = 2" by simp
  have 4: "filter_by_natural_language [] QMissing = Inl BadQuery
   \<and> filter_by_natural_language [] QOther = Inl BadQuery
   \<and> filter_by_natural_language [] (QStr []) = Inl BadQuery"
    using bad_query_iff_empty [of "[]" "[]"] by simp
  have "js ''all strings'' \<noteq> []" by (simp add: js_def)
  then have 5: "filter_by_natural_language [] (QStr (js ''all strings'')) \<noteq> Inl BadQuery"
    using bad_query_iff_empty [of "[]" "js ''all strings''"] by simp
  show ?thesis
    unfolding 1 using w 2 3 4 5 by simp
qed

text \<open>
  The claim says that a query of white space only fails with \<open>BadQuery\<close>. The query
  of three spaces, on the empty store, is answered with an empty listing.
\<close>

theorem whitespace_query_is_accepted:
  "js ''   '' = [0x20, 0x20, 0x20] \<and> isWhiteSpace 0x20
   \<and> filter_by_natural_language [] (QStr (js ''   ''))
       = Inr \<lparr> data = [], count = 0, interpreted_original = js ''   '',
               interpreted_parsed_filters = no_filters \<rparr>"
  by (simp add: nl_eval isWhiteSpace_def)

text \<open>
  C5. For a non-empty query the handler fails with \<open>ConflictingFilters\<close> exactly when
  the parsed filters hold both \<open>word_count = 1\<close> and \<open>is_palindrome = false\<close>, that is
  when the lower-cased query contains both \<open>single word\<close> and \<open>not palindromic\<close>;
  the store plays no part, and the error response (the left summand) carries no
  data.
\<close>

theorem conflicting_filters_iff:
  "query \<noteq> [] \<Longrightarrow>
   (filter_by_natural_language st (QStr query) = Inl ConflictingFilters)
     = (f_word_count (parseQuery query) = Some (Num 1)
        \<and> f_is_palindrome (parseQuery query) = Some False)
   \<and> (f_word_count (parseQuery query) = Some (Num 1)
        \<and> f_is_palindrome (parseQuery query) = Some False)
     = (includes_str (toLowerCase query) (js ''single word'')
        \<and> includes_str (toLowerCase query) (js ''not palindromic''))"
  by (simp add: filter_by_natural_language_def Let_def parseQuery_word_count
        parseQuery_is_palindrome)

theorem conflicting_filters_iff_witness:
  "js ''find a single word that is not palindromic'' \<noteq> []
   \<and> filter_by_natural_language []
        (QStr (js ''find a single word that is not palindromic'')) = Inl ConflictingFilters
   \<and> filter_by_natural_language [] (QStr (js ''find a single word''))
        \<noteq> Inl ConflictingFilters"
  using conflicting_filters_iff [of "js ''find a single word that is not palindromic''" "[]"]
    conflicting_filters_iff [of "js ''find a single word''" "[]"]
  by (simp add: toLowerCase_def lowerUnit_def js_def)

text \<open>
  C7. A query whose lower-cased text contains \<open>not palindromic\<close> gets
  \<open>is_palindrome = false\<close>; one that contains \<open>palindromic\<close> but not
  \<open>not palindromic\<close> gets \<open>is_palindrome = true\<close>; any other query leaves the key
  unset.
\<close>

theorem palindromic_rules:
  "(includes_str (toLowerCase query) (js ''not palindromic'')
      \<longrightarrow> f_is_palindrome (parseQuery query) = Some False)
   \<and> (includes_str (toLowerCase query) (js ''palindromic'')
        \<and> \<not> includes_str (toLowerCase query) (js ''not palindromic'')
      \<longrightarrow> f_is_palindrome (parseQuery query) = Some True)
   \<and> (\<not> includes_str (toLowerCase query) (js ''palindromic'')
        \<and> \<not> includes_str (toLowerCase query) (js ''not palindromic'')
      \<longrightarrow> f_is_palindrome (parseQuery query) = None)"
  by (simp add: parseQuery_is_palindrome)

theorem palindromic_rules_witness:
  "f_is_palindrome (parseQuery (js ''Strings that are NOT Palindromic'')) = Some False
   \<and> f_is_palindrome (parseQuery (js ''all palindromic strings'')) = Some True
   \<and> f_is_palindrome (parseQuery (js ''all strings'')) = None"
  using palindromic_rules [of "js ''Strings that are NOT Palindromic''"]
    palindromic_rules [of "js ''all palindromic strings''"]
    palindromic_rules [of "js ''all strings''"]
  by (simp add: toLowerCase_def lowerUnit_def js_def)

subsection \<open>The regular expression of the sixth rule\<close>

lemma includes_str_iff: "includes_str s pat = (\<exists>pre post. s = pre @ pat @ post)"
proof (induction s)
  case Nil
  then show ?case by auto
next
  case (Cons u s)
  show ?case
  proof
    assume "includes_str (u # s) pat"
    then consider "prefix pat (u # s)" | "includes_str s pat" by auto
    then show "\<exists>pre post. u # s = pre @ pat @ post"
    proof cases
      case 1
      then obtain post where "u # s = pat @ post" by (auto simp: prefix_def)
      then have "u # s = [] @ pat @ post" by simp
      then show ?thesis by blast
    next
      case 2
      then obtain pre post where "s = pre @ pat @ post" using Cons.IH by auto
      then have "u # s = (u # pre) @ pat @ post" by simp
      then show ?thesis by blast
    qed
  next
    assume "\<exists>pre post. u # s = pre @ pat @ post"
    then obtain pre post where e: "u # s = pre @ pat @ post" by auto
    show "includes_str (u # s) pat"
    proof (cases pre)
      case Nil
      have "prefix pat (u # s)" unfolding e Nil by simp
      then show ?thesis by simp
    next
      case (Cons a pre')
      then have "s = pre' @ pat @ post" using e by simp
      then show ?thesis using Cons.IH by auto
    qed
  qed
qed

lemma digit_not_space: "isDigit u \<Longrightarrow> \<not> isWhiteSpace u \<and> u \<noteq> 0x2B \<and> u \<noteq> 0x2D \<and> u \<noteq> 0x20"
  by (auto simp: isDigit_def isWhiteSpace_def word_le_nat_alt)

lemma js_characters: "js '' characters'' = 0x20 # js ''characters''"
  by (simp add: js_def)

lemma takeWhile_digits:
  "list_all isDigit ds \<Longrightarrow> takeWhile isDigit (ds @ js '' characters'' @ post) = ds"
  by (induction ds) (auto simp: js_characters isDigit_def)

lemma dropWhile_digits:
  "list_all isDigit ds \<Longrightarrow> dropWhile isDigit (ds @ js '' characters'' @ post) = js '' characters'' @ post"
  by (induction ds) (auto simp: js_characters isDigit_def)

lemma match_longer_at_Some:
  assumes m: "match_longer_at s = Some ds"
  shows "pattern_occurs s [] ds"
proof -
  let ?rest = "drop (length (js ''longer than '')) s"
  have p: "prefix (js ''longer than '') s"
    using m by (cases "prefix (js ''longer than '') s") (simp_all add: match_longer_at_def)
  have c: "takeWhile isDigit ?rest \<noteq> [] \<and> prefix (js '' characters'') (dropWhile isDigit ?rest)"
    using m p
    by (cases "takeWhile isDigit ?rest \<noteq> [] \<and> prefix (js '' characters'') (dropWhile isDigit ?rest)")
       (simp_all add: match_longer_at_def Let_def)
  have ds: "ds = takeWhile isDigit ?rest"
    using m p c by (simp add: match_longer_at_def Let_def)
  from c obtain post where d: "dropWhile isDigit ?rest = js '' characters'' @ post"
    unfolding prefix_def by blast
  have "?rest = takeWhile isDigit ?rest @ dropWhile isDigit ?rest" by simp
  then have r: "?rest = ds @ js '' characters'' @ post" using ds d by simp
  from p obtain t where "s = js ''longer than '' @ t" unfolding prefix_def by blast
  then have "s = js ''longer than '' @ ?rest" by simp
  then have s: "s = [] @ js ''longer than '' @ ds @ js '' characters'' @ post"
    using r by simp
  have a: "list_all isDigit ds"
    unfolding ds list_all_iff using set_takeWhileD by fastforce
  have "ds \<noteq> []" using c ds by simp
  then show ?thesis unfolding pattern_occurs_def using s a by blast
qed

lemma match_longer_at_complete:
  assumes "pattern_occurs s [] ds"
  shows "match_longer_at s = Some ds"
proof -
  from assms obtain post where s: "s = js ''longer than '' @ ds @ js '' characters'' @ post"
    and ds: "ds \<noteq> []" "list_all isDigit ds"
    unfolding pattern_occurs_def by auto
  have p: "prefix (js ''longer than '') s" unfolding s by simp
  have r: "drop (length (js ''longer than '')) s = ds @ js '' characters'' @ post"
    unfolding s by simp
  show ?thesis
    unfolding match_longer_at_def Let_def r
    using p ds by (simp add: takeWhile_digits dropWhile_digits)
qed

lemma match_longer_at_iff: "(match_longer_at s = Some ds) = pattern_occurs s [] ds"
  using match_longer_at_Some match_longer_at_complete by blast

lemma pattern_occurs_Nil: "\<not> pattern_occurs [] pre ds"
  by (simp add: pattern_occurs_def js_def)

lemma pattern_occurs_Cons:
  "pattern_occurs (u # s) (v # pre) ds = (u = v \<and> pattern_occurs s pre ds)"
  by (auto simp: pattern_occurs_def)

lemma match_longer_iff: "(match_longer s = Some ds) = first_pattern s ds"
proof (induction s)
  case Nil
  then show ?case by (simp add: first_pattern_def pattern_occurs_Nil)
next
  case (Cons u s)
  show ?case
  proof (cases "match_longer_at (u # s)")
    case (Some d)
    then have d: "pattern_occurs (u # s) [] d" by (simp add: match_longer_at_iff)
    have "first_pattern (u # s) ds = (ds = d)"
    proof
      assume "first_pattern (u # s) ds"
      then obtain pre where o: "pattern_occurs (u # s) pre ds"
        and l: "length pre \<le> length ([] :: jsstring)"
        using d unfolding first_pattern_def by blast
      then have "pattern_occurs (u # s) [] ds" by simp
      then show "ds = d" using Some by (simp add: match_longer_at_iff [symmetric])
    next
      assume "ds = d"
      then show "first_pattern (u # s) ds"
        using d unfolding first_pattern_def by (metis length_0_conv le0 list.size(3))
    qed
    then show ?thesis using Some by auto
  next
    case None
    then have n: "\<not> pattern_occurs (u # s) [] d" for d
      by (simp add: match_longer_at_iff [symmetric])
    have "first_pattern (u # s) ds = first_pattern s ds"
    proof
      assume "first_pattern (u # s) ds"
      then obtain pre where o: "pattern_occurs (u # s) pre ds"
        and l: "\<And>pre' ds'. pattern_occurs (u # s) pre' ds' \<Longrightarrow> length pre \<le> length pre'"
        unfolding first_pattern_def by blast
      from o n obtain pre0 where pre: "pre = u # pre0" and o': "pattern_occurs s pre0 ds"
        by (cases pre) (auto simp: pattern_occurs_Cons)
      have "length pre0 \<le> length p'" if "pattern_occurs s p' d'" for p' d'
        using l [of "u # p'" d'] that pre by (simp add: pattern_occurs_Cons)
      then show "first_pattern s ds" using o' unfolding first_pattern_def by blast
    next
      assume "first_pattern s ds"
      then obtain pre where o: "pattern_occurs s pre ds"
        and l: "\<And>pre' ds'. pattern_occurs s pre' ds' \<Longrightarrow> length pre \<le> length pre'"
        unfolding first_pattern_def by blast
      have o': "pattern_occurs (u # s) (u # pre) ds" using o by (simp add: pattern_occurs_Cons)
      have "length (u # pre) \<le> length p'" if p: "pattern_occurs (u # s) p' d'" for p' d'
      proof (cases p')
        case Nil
        then show ?thesis using p n by simp
      next
        case (Cons v p0)
        then show ?thesis using p l [of p0 d'] by (simp add: pattern_occurs_Cons)
      qed
      then show "first_pattern (u # s) ds" using o' unfolding first_pattern_def by blast
    qed
    then show ?thesis using None Cons.IH by simp
  qed
qed

lemma match_longer_None_iff:
  "(match_longer s = None) = (\<forall>pre ds. \<not> pattern_occurs s pre ds)"
proof (induction s)
  case Nil
  then show ?case by (simp add: pattern_occurs_Nil)
next
  case (Cons u s)
  have a: "(match_longer_at (u # s) = None) = (\<forall>ds. \<not> pattern_occurs (u # s) [] ds)"
    using match_longer_at_iff [of "u # s"] by (cases "match_longer_at (u # s)") auto
  have b: "(\<forall>pre ds. \<not> pattern_occurs (u # s) pre ds)
           = ((\<forall>ds. \<not> pattern_occurs (u # s) [] ds) \<and> (\<forall>pre ds. \<not> pattern_occurs s pre ds))"
  proof
    assume h: "\<forall>pre ds. \<not> pattern_occurs (u # s) pre ds"
    have "\<not> pattern_occurs s pre ds" for pre ds
      using h pattern_occurs_Cons [of u s u pre ds] by blast
    then show "(\<forall>ds. \<not> pattern_occurs (u # s) [] ds) \<and> (\<forall>pre ds. \<not> pattern_occurs s pre ds)"
      using h by blast
  next
    assume h: "(\<forall>ds. \<not> pattern_occurs (u # s) [] ds) \<and> (\<forall>pre ds. \<not> pattern_occurs s pre ds)"
    have "\<not> pattern_occurs (u # s) pre ds" for pre ds
      using h by (cases pre) (simp_all add: pattern_occurs_Cons)
    then show "\<forall>pre ds. \<not> pattern_occurs (u # s) pre ds" by blast
  qed
  show ?case
    using a b Cons.IH by (cases "match_longer_at (u # s)") auto
qed

lemma digits_value_foldl_nonneg:
  "list_all isDigit ds \<Longrightarrow> 0 \<le> a \<Longrightarrow> 0 \<le> foldl (\<lambda>a u. 10 * a + (uint u - 48)) a ds"
proof (induction ds arbitrary: a)
  case Nil
  then show ?case by simp
next
  case (Cons u ds)
  have "48 \<le> uint u" using Cons.prems(1) by (simp add: isDigit_def word_le_def)
  then have "0 \<le> 10 * a + (uint u - 48)" using Cons.prems(2) by simp
  then show ?case using Cons.IH Cons.prems(1) by simp
qed

lemma digits_value_nonneg: "list_all isDigit ds \<Longrightarrow> 0 \<le> digits_value ds"
  by (simp add: digits_value_def digits_value_foldl_nonneg)

lemma parseInt10_digits:
  assumes "ds \<noteq> []" and "list_all isDigit ds"
  shows "parseInt10 ds = to_double (digits_value ds)"
proof -
  from assms obtain u t where ds: "ds = u # t" by (cases ds) auto
  have u: "isDigit u" using assms(2) ds by simp
  have w: "dropWhile isWhiteSpace ds = ds" using ds u digit_not_space by simp
  have t: "takeWhile isDigit ds = ds" using assms(2) by (simp add: list_all_iff)
  have h: "hd ds \<noteq> 0x2B \<and> hd ds \<noteq> 0x2D" using ds u digit_not_space [of u] by simp
  have s2: "(if ds \<noteq> [] \<and> (hd ds = 0x2B \<or> hd ds = 0x2D) then tl ds else ds) = ds"
    using h by simp
  show ?thesis
    unfolding parseInt10_def Let_def w s2 t
    using h assms(1) by simp
qed

lemma round_nat_exact: "m \<le> 2 ^ 53 \<Longrightarrow> round_nat m = Some m"
proof (cases "m < 2 ^ 53")
  case True
  then show ?thesis by (simp add: round_nat_def)
next
  case False
  assume "m \<le> 2 ^ 53"
  with False have "m = 9007199254740992" by simp
  then show ?thesis by (simp add: round_nat_def Let_def bit_length.simps)
qed

lemma to_double_exact: "0 \<le> n \<Longrightarrow> n \<le> 2 ^ 53 \<Longrightarrow> to_double n = Num n"
proof -
  assume a: "0 \<le> n" "n \<le> 2 ^ 53"
  then have "nat \<bar>n\<bar> \<le> 2 ^ 53" by (simp add: nat_le_iff)
  then have "round_nat (nat \<bar>n\<bar>) = Some (nat \<bar>n\<bar>)" by (rule round_nat_exact)
  then show ?thesis using a by (simp add: to_double_def)
qed

lemma parseQuery_min_length:
  "f_min_length (parseQuery query) =
     (if includes_str (toLowerCase query) (js ''longer than'')
      then (case match_longer (toLowerCase query) of
              None \<Rightarrow> None
            | Some m1 \<Rightarrow> if m1 \<noteq> [] then Some (js_add1 (parseInt10 m1)) else None)
      else None)"
  by (auto simp add: parseQuery_def Let_def no_filters_def split: option.splits)

lemma pattern_occurs_includes:
  "pattern_occurs s pre ds \<Longrightarrow> includes_str s (js ''longer than'')"
proof -
  assume "pattern_occurs s pre ds"
  then obtain post where "s = pre @ js ''longer than '' @ ds @ js '' characters'' @ post"
    unfolding pattern_occurs_def by blast
  moreover have "js ''longer than '' = js ''longer than'' @ [0x20]" by (simp add: js_def)
  ultimately have "s = pre @ js ''longer than'' @ (0x20 # ds @ js '' characters'' @ post)"
    by simp
  then show ?thesis unfolding includes_str_iff by blast
qed

lemma first_pattern_min_length:
  assumes f: "first_pattern (toLowerCase query) ds" and b: "digits_value ds < 2 ^ 53"
  shows "f_min_length (parseQuery query) = Some (Num (digits_value ds + 1))"
proof -
  from f obtain pre where o: "pattern_occurs (toLowerCase query) pre ds"
    unfolding first_pattern_def by blast
  then have ds: "ds \<noteq> []" "list_all isDigit ds" unfolding pattern_occurs_def by auto
  have i: "includes_str (toLowerCase query) (js ''longer than'')"
    using o by (rule pattern_occurs_includes)
  have m: "match_longer (toLowerCase query) = Some ds" using f by (simp add: match_longer_iff)
  have n: "0 \<le> digits_value ds" using ds by (simp add: digits_value_nonneg)
  have "parseInt10 ds = Num (digits_value ds)"
    using ds n b by (simp add: parseInt10_digits to_double_exact)
  moreover have "to_double (digits_value ds + 1) = Num (digits_value ds + 1)"
    using n b by (simp add: to_double_exact)
  ultimately show ?thesis using i m ds by (simp add: parseQuery_min_length)
qed

lemma no_pattern_min_length:
  assumes "\<forall>pre ds. \<not> pattern_occurs (toLowerCase query) pre ds"
  shows "f_min_length (parseQuery query) = None"
  using assms by (simp add: parseQuery_min_length match_longer_None_iff [symmetric])

lemma parse_example:
  "parseQuery (js ''strings longer than 5 characters'') = no_filters\<lparr>f_min_length := Some (Num 6)\<rparr>"
  by (simp add: parse_eval)

lemma apply_min_length_only:
  "apply_parsed (no_filters\<lparr>f_min_length := Some (Num n)\<rparr>) xs
     = filter (\<lambda>s. n \<le> int (str_length (s_properties s))) xs"
  by (simp add: apply_parsed_def no_filters_def)

text \<open>
  C6, as the code has it. Let \<open>lq\<close> be the lower-cased query.
  \<^item> If \<open>longer than N characters\<close> occurs in \<open>lq\<close>, \<open>ds\<close> is the numeral of its
    first occurrence and its value is below \<open>2 ^ 53\<close>, the translator sets
    \<open>min_length\<close> to that value plus one.
  \<^item> If \<open>lq\<close> contains \<open>longer than\<close> and the pattern occurs nowhere, \<open>min_length\<close>
    stays unset, and the handler fails only as the conflict rule says.
  \<^item> \<open>strings longer than 5 characters\<close> gives \<open>min_length = 6\<close> and no other
    filter, and the handler returns exactly the stored records whose \<open>length\<close>
    is at least 6.
\<close>

theorem longer_than_rule:
  "(first_pattern (toLowerCase query) ds \<and> digits_value ds < 2 ^ 53
      \<longrightarrow> f_min_length (parseQuery query) = Some (Num (digits_value ds + 1)))
   \<and> (includes_str (toLowerCase query) (js ''longer than'')
        \<and> (\<forall>pre ds'. \<not> pattern_occurs (toLowerCase query) pre ds')
      \<longrightarrow> f_min_length (parseQuery query) = None
          \<and> (\<forall>e. filter_by_natural_language st (QStr query) = Inl e \<longrightarrow> e = ConflictingFilters))
   \<and> filter_by_natural_language st (QStr (js ''strings longer than 5 characters''))
       = Inr \<lparr> data = filter (\<lambda>s. 6 \<le> str_length (s_properties s)) (store_values st),
               count = length (filter (\<lambda>s. 6 \<le> str_length (s_properties s)) (store_values st)),
               interpreted_original = js ''strings longer than 5 characters'',
               interpreted_parsed_filters = no_filters\<lparr>f_min_length := Some (Num 6)\<rparr> \<rparr>"
proof (intro conjI impI)
  assume "first_pattern (toLowerCase query) ds \<and> digits_value ds < 2 ^ 53"
  then show "f_min_length (parseQuery query) = Some (Num (digits_value ds + 1))"
    using first_pattern_min_length by blast
next
  assume "includes_str (toLowerCase query) (js ''longer than'')
        \<and> (\<forall>pre ds'. \<not> pattern_occurs (toLowerCase query) pre ds')"
  then show "f_min_length (parseQuery query) = None"
    using no_pattern_min_length by blast
next
  assume a: "includes_str (toLowerCase query) (js ''longer than'')
        \<and> (\<forall>pre ds'. \<not> pattern_occurs (toLowerCase query) pre ds')"
  have "\<not> includes_str (toLowerCase []) (js ''longer than'')"
    by (simp add: toLowerCase_def js_def)
  with a have "query \<noteq> []" by auto
  then show "\<forall>e. filter_by_natural_language st (QStr query) = Inl e \<longrightarrow> e = ConflictingFilters"
    by (auto simp: filter_by_natural_language_def Let_def split: if_splits)
next
  have "js ''strings longer than 5 characters'' \<noteq> []" by (simp add: js_def)
  moreover have "(\<lambda>s. 6 \<le> int (str_length (s_properties s))) = (\<lambda>s. 6 \<le> str_length (s_properties s))"
    by auto
  ultimately show "filter_by_natural_language st (QStr (js ''strings longer than 5 characters''))
       = Inr \<lparr> data = filter (\<lambda>s. 6 \<le> str_length (s_properties s)) (store_values st),
               count = length (filter (\<lambda>s. 6 \<le> str_length (s_properties s)) (store_values st)),
               interpreted_original = js ''strings longer than 5 characters'',
               interpreted_parsed_filters = no_filters\<lparr>f_min_length := Some (Num 6)\<rparr> \<rparr>"
    by (simp add: filter_by_natural_language_def Let_def parse_example apply_min_length_only)
qed

text \<open>
  The rule at three inputs: a numeral in a query of mixed case, a query with
  \<open>longer than\<close> and no numeral, and the query of the specification on the store
  that holds \<open>hi\<close> and \<open>hello world\<close> (the identity function stands for the hash).
\<close>

theorem longer_than_rule_witness:
  "f_min_length (parseQuery (js ''Strings LONGER than 12 characters'')) = Some (Num 13)
   \<and> f_min_length (parseQuery (js ''longer than five characters'')) = None
   \<and> map_sum id (\<lambda>r. map s_value (data r))
        (filter_by_natural_language
           (fst (post_strings (\<lambda>v. v) 1 (fst (post_strings (\<lambda>v. v) 0 [] (JString (js ''hi''))))
                 (JString (js ''hello world''))))
           (QStr (js ''strings longer than 5 characters'')))
       = Inr [js ''hello world'']"
proof -
  let ?q1 = "js ''Strings LONGER than 12 characters''"
  let ?q2 = "js ''longer than five characters''"
  let ?st = "fst (post_strings (\<lambda>v. v) 1 (fst (post_strings (\<lambda>v. v) 0 [] (JString (js ''hi''))))
                 (JString (js ''hello world'')))"
  have "match_longer (toLowerCase ?q1) = Some (js ''12'')"
    by (simp add: parse_eval)
  then have f: "first_pattern (toLowerCase ?q1) (js ''12'')" by (simp add: match_longer_iff)
  have d: "digits_value (js ''12'') = 12" by (simp add: digits_value_def js_def)
  have 1: "f_min_length (parseQuery ?q1) = Some (Num 13)"
    using longer_than_rule [of ?q1 "js ''12''"] f d by simp
  have "match_longer (toLowerCase ?q2) = None" by (simp add: parse_eval)
  then have n: "\<forall>pre ds'. \<not> pattern_occurs (toLowerCase ?q2) pre ds'"
    by (simp add: match_longer_None_iff)
  have i: "includes_str (toLowerCase ?q2) (js ''longer than'')" by (simp add: parse_eval)
  have 2: "f_min_length (parseQuery ?q2) = None"
    using longer_than_rule [of ?q2] n i by blast
  have 3: "map_sum id (\<lambda>r. map s_value (data r))
        (filter_by_natural_language ?st (QStr (js ''strings longer than 5 characters'')))
       = Inr [js ''hello world'']"
    using longer_than_rule [of "[]" "[]" ?st]
    by (simp add: post_strings_def store_has_def store_values_def analyze_eval js_def)
  from 1 2 3 show ?thesis by blast
qed

text \<open>
  Where the claim, as stated, fails. A number is a double: for \<open>N = 2 ^ 53\<close> the sum
  \<open>N + 1\<close> rounds back to \<open>N\<close>, so \<open>min_length\<close> is \<open>N\<close>. And \<open>match\<close> returns the
  leftmost match: a query that also matches the pattern with \<open>N = 7\<close> further to the
  right gets \<open>min_length = 6\<close> from the first numeral, not 8.
\<close>

theorem longer_than_counterexample:
  "f_min_length (parseQuery (js ''longer than 9007199254740992 characters''))
     = Some (Num 9007199254740992)
   \<and> pattern_occurs (toLowerCase (js ''longer than 5 characters or longer than 7 characters''))
       (js ''longer than 5 characters or '') (js ''7'')
   \<and> f_min_length (parseQuery (js ''longer than 5 characters or longer than 7 characters''))
     = Some (Num 6)"
  by (simp add: parse_eval pattern_occurs_def)

section \<open>The structured filters\<close>

lemmas step_defs =
  step_is_palindrome_def step_min_length_def step_max_length_def step_word_count_def
  step_contains_character_def

lemmas get_eval =
  get_strings_def and_then_def step_defs Let_def no_filters_def store_values_def isNaN_def

lemma get_strings_split:
  "get_strings st q =
     and_then (first_steps st q) (\<lambda>s4. and_then (step_contains_character q s4) finish)"
  unfolding get_strings_def first_steps_def finish_def and_then_def
  by (simp split: sum.splits)

lemma first_steps_cc:
  "first_steps st (q\<lparr>q_contains_character := x\<rparr>) = first_steps st q"
  by (simp add: first_steps_def step_defs)

lemma step_cc_None:
  "step_contains_character (q\<lparr>q_contains_character := None\<rparr>) s = Inr s"
  by (cases s) (simp add: step_contains_character_def)

lemma get_strings_without_cc:
  "get_strings st (q\<lparr>q_contains_character := None\<rparr>) = and_then (first_steps st q) finish"
  unfolding get_strings_split first_steps_cc step_cc_None
  by (simp add: and_then_def)

lemma first_steps_error:
  "first_steps st q = Inl e \<Longrightarrow> \<exists>f. e = InvalidFilterValue f"
  unfolding first_steps_def and_then_def step_defs Let_def
  by (auto split: sum.splits option.splits if_splits prod.splits)

text \<open>
  What the validation does catch: a numeric parameter from which \<open>parseInt\<close> reads
  no digit is rejected, and the error names it (the first one in the order of the
  blocks).
\<close>

lemma get_strings_min_length_nan:
  "q_min_length q = Some p \<Longrightarrow> parseInt10 p = NaN \<Longrightarrow>
   get_strings st q = Inl (InvalidFilterValue F_min_length)"
  by (simp add: get_strings_def and_then_def step_is_palindrome_def step_min_length_def isNaN_def
        Let_def split: option.splits)

lemma get_strings_max_length_nan:
  "q_min_length q = None \<Longrightarrow> q_max_length q = Some p \<Longrightarrow> parseInt10 p = NaN \<Longrightarrow>
   get_strings st q = Inl (InvalidFilterValue F_max_length)"
  by (simp add: get_strings_def and_then_def step_is_palindrome_def step_min_length_def
        step_max_length_def isNaN_def Let_def split: option.splits)

lemma get_strings_word_count_nan:
  "q_min_length q = None \<Longrightarrow> q_max_length q = None \<Longrightarrow> q_word_count q = Some p \<Longrightarrow>
   parseInt10 p = NaN \<Longrightarrow> get_strings st q = Inl (InvalidFilterValue F_word_count)"
  by (simp add: get_strings_def and_then_def step_is_palindrome_def step_min_length_def
        step_max_length_def step_word_count_def isNaN_def Let_def split: option.splits)

text \<open>\<open>is_palindrome\<close> is never rejected: any value but \<open>true\<close> is read as \<open>false\<close>.\<close>

lemma get_strings_is_palindrome_coerced:
  "q_is_palindrome q = Some p \<Longrightarrow> p \<noteq> js ''true'' \<Longrightarrow>
   get_strings st q = get_strings st (q\<lparr>q_is_palindrome := Some (js ''false'')\<rparr>)"
  by (simp add: get_strings_def step_defs js_def)

text \<open>
  C4. The claim: a filter value that does not parse as its type (a boolean, a
  non-negative integer) is rejected with \<open>InvalidFilterValue\<close>, never coerced. On
  the empty store, \<open>is_palindrome=banana\<close> is answered with the filter
  \<open>is_palindrome = false\<close> applied, \<open>min_length=12abc\<close> with \<open>min_length = 12\<close>, and
  \<open>max_length=-5\<close> with \<open>max_length = -5\<close>: three values coerced or accepted.
\<close>

theorem get_strings_coerces_invalid_values:
  "get_strings [] \<lparr> q_is_palindrome = Some (js ''banana''), q_min_length = None,
                    q_max_length = None, q_word_count = None, q_contains_character = None \<rparr>
     = Inr \<lparr> data = [], count = 0,
             filters_applied = Some (no_filters\<lparr>f_is_palindrome := Some False\<rparr>) \<rparr>
   \<and> get_strings [] \<lparr> q_is_palindrome = None, q_min_length = Some (js ''12abc''),
                    q_max_length = None, q_word_count = None, q_contains_character = None \<rparr>
     = Inr \<lparr> data = [], count = 0,
             filters_applied = Some (no_filters\<lparr>f_min_length := Some (Num 12)\<rparr>) \<rparr>
   \<and> get_strings [] \<lparr> q_is_palindrome = None, q_min_length = None,
                    q_max_length = Some (js ''-5''), q_word_count = None, q_contains_character = None \<rparr>
     = Inr \<lparr> data = [], count = 0,
             filters_applied = Some (no_filters\<lparr>f_max_length := Some (Num (-5))\<rparr>) \<rparr>"
  by (simp add: get_eval parse_eval)

lemma one_unit_one_code_point: "length c = 1 \<Longrightarrow> length (codePoints c) = 1"
  by (cases c) auto

lemma first_steps_none:
  "q_is_palindrome q = None \<Longrightarrow> q_min_length q = None \<Longrightarrow> q_max_length q = None \<Longrightarrow>
   q_word_count q = None \<Longrightarrow> first_steps st q = Inr (store_values st, no_filters)"
  by (simp add: first_steps_def step_defs and_then_def)

lemma no_filters_cc: "fa\<lparr>f_contains_character := Some c\<rparr> \<noteq> no_filters"
proof
  assume "fa\<lparr>f_contains_character := Some c\<rparr> = no_filters"
  then have "f_contains_character (fa\<lparr>f_contains_character := Some c\<rparr>) = f_contains_character no_filters"
    by simp
  then show False by simp
qed

lemma get_strings_contains_character:
  assumes "q_contains_character q = Some c"
  shows "get_strings st q =
     (case first_steps st q of
        Inl e \<Rightarrow> Inl e
      | Inr (xs, fa) \<Rightarrow>
          if length c \<noteq> 1 then Inl (InvalidFilterValue F_contains_character)
          else finish (filter (\<lambda>s. includes_str (s_value s) c) xs,
                       fa\<lparr>f_contains_character := Some c\<rparr>))"
  using assms
  by (simp add: get_strings_split and_then_def step_contains_character_def
        split: sum.splits prod.splits)

text \<open>
  C9, as the code has it. For a request with \<open>contains_character = c\<close>:
  \<^item> if \<open>c\<close> is empty or has more than one character, the request fails with
    \<open>InvalidFilterValue\<close>;
  \<^item> if \<open>c\<close> is one code unit, the request fails as the request without
    \<open>contains_character\<close> does, or else returns exactly the records of that
    request's result whose value contains \<open>c\<close>: the filters are a conjunction;
  \<^item> if \<open>c\<close> is one code unit and no other filter is present, the result is
    exactly the stored records whose value contains \<open>c\<close>.
\<close>

theorem contains_character_filter:
  assumes c: "q_contains_character q = Some c"
  shows "(length (codePoints c) \<noteq> 1 \<longrightarrow> (\<exists>f. get_strings st q = Inl (InvalidFilterValue f)))
   \<and> (length c = 1 \<longrightarrow>
        (case get_strings st (q\<lparr>q_contains_character := None\<rparr>) of
           Inl e \<Rightarrow> get_strings st q = Inl e
         | Inr r \<Rightarrow> (\<exists>fa. get_strings st q =
             Inr \<lparr> data = filter (\<lambda>s. includes_str (s_value s) c) (data r),
                   count = length (filter (\<lambda>s. includes_str (s_value s) c) (data r)),
                   filters_applied = Some fa \<rparr>)))
   \<and> (length c = 1 \<and> q_is_palindrome q = None \<and> q_min_length q = None
        \<and> q_max_length q = None \<and> q_word_count q = None \<longrightarrow>
        get_strings st q =
          Inr \<lparr> data = filter (\<lambda>s. includes_str (s_value s) c) (store_values st),
                count = length (filter (\<lambda>s. includes_str (s_value s) c) (store_values st)),
                filters_applied = Some (no_filters\<lparr>f_contains_character := Some c\<rparr>) \<rparr>)"
proof (intro conjI impI)
  assume "length (codePoints c) \<noteq> 1"
  then have "length c \<noteq> 1" using one_unit_one_code_point by blast
  then show "\<exists>f. get_strings st q = Inl (InvalidFilterValue f)"
    using first_steps_error [of st q]
    by (auto simp add: get_strings_contains_character [OF c] split: sum.splits)
next
  assume "length c = 1"
  then show "case get_strings st (q\<lparr>q_contains_character := None\<rparr>) of
           Inl e \<Rightarrow> get_strings st q = Inl e
         | Inr r \<Rightarrow> (\<exists>fa. get_strings st q =
             Inr \<lparr> data = filter (\<lambda>s. includes_str (s_value s) c) (data r),
                   count = length (filter (\<lambda>s. includes_str (s_value s) c) (data r)),
                   filters_applied = Some fa \<rparr>)"
    unfolding get_strings_without_cc get_strings_contains_character [OF c]
    by (cases "first_steps st q")
       (auto simp add: and_then_def finish_def no_filters_cc)
next
  assume a: "length c = 1 \<and> q_is_palindrome q = None \<and> q_min_length q = None
        \<and> q_max_length q = None \<and> q_word_count q = None"
  then have "first_steps st q = Inr (store_values st, no_filters)"
    by (simp add: first_steps_none)
  then show "get_strings st q =
          Inr \<lparr> data = filter (\<lambda>s. includes_str (s_value s) c) (store_values st),
                count = length (filter (\<lambda>s. includes_str (s_value s) c) (store_values st)),
                filters_applied = Some (no_filters\<lparr>f_contains_character := Some c\<rparr>) \<rparr>"
    using a by (simp add: get_strings_contains_character [OF c] finish_def no_filters_cc)
qed

text \<open>
  Two characters are rejected; \<open>z\<close> alone, on the store that holds \<open>zebra\<close> and
  \<open>apple\<close>, returns \<open>zebra\<close> only.
\<close>

theorem contains_character_filter_witness:
  "get_strings [] \<lparr> q_is_palindrome = None, q_min_length = None, q_max_length = None,
                    q_word_count = None, q_contains_character = Some (js ''zz'') \<rparr>
     = Inl (InvalidFilterValue F_contains_character)
   \<and> map_sum id (\<lambda>r. map s_value (data r))
        (get_strings
           (fst (post_strings (\<lambda>v. v) 1 (fst (post_strings (\<lambda>v. v) 0 [] (JString (js ''zebra''))))
                 (JString (js ''apple''))))
           \<lparr> q_is_palindrome = None, q_min_length = None, q_max_length = None,
             q_word_count = None, q_contains_character = Some (js ''z'') \<rparr>)
       = Inr [js ''zebra'']"
proof -
  let ?q2 = "\<lparr> q_is_palindrome = None, q_min_length = None, q_max_length = None,
                    q_word_count = None, q_contains_character = Some (js ''zz'') \<rparr>"
  let ?q1 = "\<lparr> q_is_palindrome = None, q_min_length = None, q_max_length = None,
             q_word_count = None, q_contains_character = Some (js ''z'') \<rparr>"
  let ?st = "fst (post_strings (\<lambda>v. v) 1 (fst (post_strings (\<lambda>v. v) 0 [] (JString (js ''zebra''))))
                 (JString (js ''apple'')))"
  have "length (codePoints (js ''zz'')) \<noteq> 1" by (simp add: js_def isHighSurrogate_def)
  then have "\<exists>f. get_strings [] ?q2 = Inl (InvalidFilterValue f)"
    using contains_character_filter [of ?q2 "js ''zz''" "[]"] by simp
  then have 1: "get_strings [] ?q2 = Inl (InvalidFilterValue F_contains_character)"
    by (simp add: get_eval js_def)
  have "length (js ''z'') = 1" by (simp add: js_def)
  then have "get_strings ?st ?q1 =
          Inr \<lparr> data = filter (\<lambda>s. includes_str (s_value s) (js ''z'')) (store_values ?st),
                count = length (filter (\<lambda>s. includes_str (s_value s) (js ''z'')) (store_values ?st)),
                filters_applied = Some (no_filters\<lparr>f_contains_character := Some (js ''z'')\<rparr>) \<rparr>"
    using contains_character_filter [of ?q1 "js ''z''" ?st] by simp
  then have 2: "map_sum id (\<lambda>r. map s_value (data r)) (get_strings ?st ?q1) = Inr [js ''zebra'']"
    by (simp add: post_eval store_values_def)
  from 1 2 show ?thesis by blast
qed

text \<open>
  Where the claim, as stated, fails: with \<open>is_palindrome=true\<close> beside
  \<open>contains_character=z\<close>, on the store that holds \<open>zebra\<close>, the result is empty,
  although \<open>zebra\<close> is a stored record whose value contains \<open>z\<close>.
\<close>

theorem contains_character_counterexample:
  "includes_str (js ''zebra'') (js ''z'')
   \<and> map s_value (store_values (fst (post_strings (\<lambda>v. v) 0 [] (JString (js ''zebra'')))))
       = [js ''zebra'']
   \<and> map_sum id (\<lambda>r. map s_value (data r))
        (get_strings (fst (post_strings (\<lambda>v. v) 0 [] (JString (js ''zebra''))))
           \<lparr> q_is_palindrome = Some (js ''true''), q_min_length = None, q_max_length = None,
             q_word_count = None, q_contains_character = Some (js ''z'') \<rparr>)
       = Inr []"
  by (simp add: get_eval post_eval)

end
